theory Spec2Isabelle
  imports Complex_Main "HOL-Library.Word"
begin

section \<open>Common conventions\<close>

text \<open>
  The firmware is C for the ESP32. The embedding follows these conventions.
  \<^item> A C \<open>int\<close> or \<open>uint32_t\<close> is a \<open>32 word\<close>: \<open>+\<close> and \<open>-\<close> wrap around,
    \<open>sint\<close> reads the two's complement value, \<open>unat\<close> the unsigned one.
  \<^item> A C \<open>float\<close> or \<open>double\<close> is a \<open>real\<close>: rounding is not modelled. The only
    arithmetic the actuator performs on a float is a multiplication by a power of two,
    which is exact in binary floating point.
  \<^item> The peripherals (LEDC PWM, pulse counter) are an explicit store \<open>hw_state\<close>
    that the driver functions read and update.
  \<^item> \<open>ESP_ERROR_CHECK\<close> aborts the firmware; a conversion whose result is
    undefined in C is not given a value. Both are results \<open>Inl e\<close> of the sum type
    \<open>error + 'a\<close>.
\<close>

datatype error =
  Esp_Error_Check_Abort
| Undefined_Float_Conversion

section \<open>Motor driver (motor\_driver.c)\<close>

subsection \<open>Peripheral store\<close>

type_synonym ledc_channel_t = nat
type_synonym gpio_num_t = nat
type_synonym pcnt_unit_handle_t = nat
type_synonym pcnt_channel_handle_t = nat

datatype pcnt_channel_edge_action_t =
  PCNT_CHANNEL_EDGE_ACTION_HOLD
| PCNT_CHANNEL_EDGE_ACTION_INCREASE
| PCNT_CHANNEL_EDGE_ACTION_DECREASE

text \<open>
  \<open>ledc_duty\<close> is the duty register written by \<open>ledc_set_duty\<close>; \<open>ledc_output\<close> is
  the duty the channel drives, latched from the register by \<open>ledc_update_duty\<close>.
  \<open>pcnt_edge_action\<close> holds the (positive edge, negative edge) action of a pulse
  counter channel, \<open>pcnt_count\<close> the accumulated count of a pulse counter unit.
\<close>

record hw_state =
  ledc_duty :: "ledc_channel_t \<Rightarrow> 32 word"
  ledc_output :: "ledc_channel_t \<Rightarrow> 32 word"
  pcnt_edge_action ::
    "pcnt_channel_handle_t \<Rightarrow> pcnt_channel_edge_action_t \<times> pcnt_channel_edge_action_t"
  pcnt_count :: "pcnt_unit_handle_t \<Rightarrow> 32 word"

definition ledc_set_duty :: "hw_state \<Rightarrow> ledc_channel_t \<Rightarrow> 32 word \<Rightarrow> hw_state" where
  "ledc_set_duty hw chan d = hw\<lparr>ledc_duty := (ledc_duty hw)(chan := d)\<rparr>"

definition ledc_update_duty :: "hw_state \<Rightarrow> ledc_channel_t \<Rightarrow> hw_state" where
  "ledc_update_duty hw chan = hw\<lparr>ledc_output := (ledc_output hw)(chan := ledc_duty hw chan)\<rparr>"

definition pcnt_channel_set_edge_action ::
  "hw_state \<Rightarrow> pcnt_channel_handle_t \<Rightarrow> pcnt_channel_edge_action_t \<Rightarrow>
   pcnt_channel_edge_action_t \<Rightarrow> hw_state" where
  "pcnt_channel_set_edge_action hw chan pos_act neg_act =
     hw\<lparr>pcnt_edge_action := (pcnt_edge_action hw)(chan := (pos_act, neg_act))\<rparr>"

definition pcnt_unit_get_count :: "hw_state \<Rightarrow> pcnt_unit_handle_t \<Rightarrow> 32 word" where
  "pcnt_unit_get_count hw u = pcnt_count hw u"

subsection \<open>Motor state\<close>

text \<open>
  The fields of \<open>motor_handle_t\<close> that motor\_driver.c reads and writes. The PID control
  block that \<open>pid_controller\<close> points to is kept in the record, with its type \<open>'p\<close>
  left open: \<open>pid_compute\<close> belongs to a library component and is a parameter of
  \<open>pid_callback\<close>.
\<close>

record encoder_handle_t =
  unit :: pcnt_unit_handle_t
  channel :: pcnt_channel_handle_t
  count :: "32 word"

record 'p motor_handle_t =
  enable_pin :: gpio_num_t
  chan_a :: ledc_channel_t
  chan_b :: ledc_channel_t
  encoder :: encoder_handle_t
  pid_controller :: 'p
  pid_timer :: nat
  cmd_velocity :: real
  reported_speed :: real
  cmd_power :: real

subsection \<open>Setpoint\<close>

definition set_motor_velocity :: "'p motor_handle_t \<Rightarrow> real \<Rightarrow> 'p motor_handle_t" where
  "set_motor_velocity motor velocity = motor\<lparr>cmd_velocity := velocity\<rparr>"

subsection \<open>Actuator\<close>

text \<open>
  \<open>LEDC_TIMER_10_BIT\<close> is an enumerator of the LEDC driver's header; its value is its
  bit count, so that \<open>1 << PWM_TIMER_RESOLUTION\<close> is the full-scale count 1024.
\<close>

definition LEDC_TIMER_10_BIT :: nat where
  "LEDC_TIMER_10_BIT = 10"

definition PWM_TIMER_RESOLUTION :: nat where
  "PWM_TIMER_RESOLUTION = LEDC_TIMER_10_BIT"

text \<open>
  The cast \<open>(uint32_t)x\<close> of a float: the fractional part is discarded, and the
  behaviour is undefined when the integral part is not a \<open>uint32_t\<close>.
\<close>

definition float_to_uint32 :: "real \<Rightarrow> error + 32 word" where
  "float_to_uint32 x =
     (if - 1 < x \<and> x < 2 ^ 32
      then Inr (word_of_int (if 0 \<le> x then \<lfloor>x\<rfloor> else \<lceil>x\<rceil>))
      else Inl Undefined_Float_Conversion)"

definition set_motor_power :: "hw_state \<Rightarrow> 'p motor_handle_t \<Rightarrow> real \<Rightarrow> error + hw_state" where
  "set_motor_power hw motor pwr =
     (case
        (if pwr > 0 then
           (case float_to_uint32 (pwr * real (2 ^ PWM_TIMER_RESOLUTION)) of
              Inl e \<Rightarrow> Inl e
            | Inr d \<Rightarrow>
                Inr (pcnt_channel_set_edge_action
                       (ledc_set_duty (ledc_set_duty hw (chan_b motor) d) (chan_a motor) 0)
                       (channel (encoder motor))
                       PCNT_CHANNEL_EDGE_ACTION_DECREASE
                       PCNT_CHANNEL_EDGE_ACTION_DECREASE))
         else
           (case float_to_uint32 (- pwr * real (2 ^ PWM_TIMER_RESOLUTION)) of
              Inl e \<Rightarrow> Inl e
            | Inr d \<Rightarrow>
                Inr (pcnt_channel_set_edge_action
                       (ledc_set_duty (ledc_set_duty hw (chan_b motor) 0) (chan_a motor) d)
                       (channel (encoder motor))
                       PCNT_CHANNEL_EDGE_ACTION_INCREASE
                       PCNT_CHANNEL_EDGE_ACTION_INCREASE)))
      of
        Inl e \<Rightarrow> Inl e
      | Inr hw1 \<Rightarrow>
          (let hw2 = (if pwr = 0
                      then pcnt_channel_set_edge_action hw1 (channel (encoder motor))
                             PCNT_CHANNEL_EDGE_ACTION_HOLD PCNT_CHANNEL_EDGE_ACTION_HOLD
                      else hw1)
           in Inr (ledc_update_duty (ledc_update_duty hw2 (chan_a motor)) (chan_b motor))))"

subsection \<open>Velocity regulator\<close>

definition PULSES_PER_ROTATION :: real where
  "PULSES_PER_ROTATION = 30"

definition PULSES_TO_RAD :: "32 word \<Rightarrow> real" where
  "PULSES_TO_RAD pulses = (real_of_int (sint pulses) / PULSES_PER_ROTATION) * (2 * pi)"

definition PID_LOOP_PERIOD_MS :: real where
  "PID_LOOP_PERIOD_MS = 10"

text \<open>The local \<open>pulses_elapsed\<close> of \<open>pid_callback\<close>.\<close>

definition pulses_elapsed :: "hw_state \<Rightarrow> 'p motor_handle_t \<Rightarrow> 32 word" where
  "pulses_elapsed hw motor =
     pcnt_unit_get_count hw (unit (encoder motor)) - count (encoder motor)"

text \<open>
  \<open>pid_compute\<close> takes the control block and the error and gives the new block and the
  output, or \<open>None\<close> for an error code, on which \<open>ESP_ERROR_CHECK\<close> aborts.
\<close>

definition pid_callback ::
  "('p \<Rightarrow> real \<Rightarrow> ('p \<times> real) option) \<Rightarrow> hw_state \<Rightarrow> 'p motor_handle_t \<Rightarrow>
   error + (hw_state \<times> 'p motor_handle_t)" where
  "pid_callback pid_compute hw motor =
     (let current_encoder_count = pcnt_unit_get_count hw (unit (encoder motor));
          motor1 = motor\<lparr>reported_speed :=
                     PULSES_TO_RAD (pulses_elapsed hw motor) * (PID_LOOP_PERIOD_MS / 1000)\<rparr>;
          err = cmd_velocity motor1 - reported_speed motor1
      in case pid_compute (pid_controller motor1) err of
           None \<Rightarrow> Inl Esp_Error_Check_Abort
         | Some (pid', out) \<Rightarrow>
             (let motor2 = motor1\<lparr>pid_controller := pid', cmd_power := out\<rparr>
              in case set_motor_power hw motor2 (cmd_power motor2) of
                   Inl e \<Rightarrow> Inl e
                 | Inr hw' \<Rightarrow>
                     Inr (hw', motor2\<lparr>encoder := (encoder motor2)\<lparr>count := current_encoder_count\<rparr>\<rparr>)))"

text \<open>
  The periodic timer calls \<open>pid_callback\<close> once per period. Between two calls the pulse
  counter of the motor's unit moves to its next reading; \<open>pid_ticks\<close> runs one call per
  reading of the list and collects the \<open>pulses_elapsed\<close> of each call.
\<close>

fun pid_ticks ::
  "('p \<Rightarrow> real \<Rightarrow> ('p \<times> real) option) \<Rightarrow> 32 word list \<Rightarrow> hw_state \<Rightarrow> 'p motor_handle_t \<Rightarrow>
   error + (32 word list \<times> hw_state \<times> 'p motor_handle_t)" where
  "pid_ticks pid_compute [] hw motor = Inr ([], hw, motor)"
| "pid_ticks pid_compute (c # cs) hw motor =
     (let hw0 = hw\<lparr>pcnt_count := (pcnt_count hw)(unit (encoder motor) := c)\<rparr>
      in case pid_callback pid_compute hw0 motor of
           Inl e \<Rightarrow> Inl e
         | Inr (hw', motor') \<Rightarrow>
             (case pid_ticks pid_compute cs hw' motor' of
                Inl e \<Rightarrow> Inl e
              | Inr (ds, final) \<Rightarrow> Inr (pulses_elapsed hw0 motor # ds, final)))"

subsection \<open>The pulse counter between ticks\<close>

text \<open>
  Modelled from the spec: the counting of the pulse counter peripheral, which is hardware
  and not under src/. Section 4.1 of the spec: the hardware counter increments or
  decrements depending on the direction set by the actuator, and holds (ignores edges)
  when told to hold. \<open>pcnt_count_edges hw u ch rising falling\<close> is the peripheral
  after that many rising and falling edges on the pin of channel \<open>ch\<close> of unit \<open>u\<close>:
  each edge moves the count by one in the direction of its edge action.
\<close>

definition pcnt_edge_move :: "pcnt_channel_edge_action_t \<Rightarrow> nat \<Rightarrow> 32 word \<Rightarrow> 32 word" where
  "pcnt_edge_move act k c =
     (case act of
        PCNT_CHANNEL_EDGE_ACTION_HOLD \<Rightarrow> c
      | PCNT_CHANNEL_EDGE_ACTION_INCREASE \<Rightarrow> c + of_nat k
      | PCNT_CHANNEL_EDGE_ACTION_DECREASE \<Rightarrow> c - of_nat k)"

definition pcnt_count_edges ::
  "hw_state \<Rightarrow> pcnt_unit_handle_t \<Rightarrow> pcnt_channel_handle_t \<Rightarrow> nat \<Rightarrow> nat \<Rightarrow> hw_state" where
  "pcnt_count_edges hw u ch rising falling =
     hw\<lparr>pcnt_count := (pcnt_count hw)
           (u := pcnt_edge_move (snd (pcnt_edge_action hw ch)) falling
                   (pcnt_edge_move (fst (pcnt_edge_action hw ch)) rising (pcnt_count hw u)))\<rparr>"

subsection \<open>The PID library component\<close>

text \<open>
  Modelled from the spec: \<open>pid_compute\<close> and its control block belong to the PID
  library component, which is not under src/. Section 4.2 of the spec gives an
  incremental controller (the output is the previous output plus a computed change), the
  gains Kp = 0.6, Ki = 0.4, Kd = 0.2 and an output clamped to [-1.0, 1.0]. The incremental
  form keeps no accumulated integral, so the integral limits of the configuration have no
  term to act on. The model never returns an error code. It is used as a concrete
  controller where a theorem is evaluated; the theorems about \<open>pid_callback\<close> hold for
  any controller.
\<close>

record pid_ctrl_block_t =
  previous_err1 :: real
  previous_err2 :: real
  last_output :: real

definition pid_compute_incremental ::
  "pid_ctrl_block_t \<Rightarrow> real \<Rightarrow> (pid_ctrl_block_t \<times> real) option" where
  "pid_compute_incremental pid err =
     (let output = (err - previous_err1 pid) * (6 / 10) +
                   (err - 2 * previous_err1 pid + previous_err2 pid) * (2 / 10) +
                   err * (4 / 10) + last_output pid;
          output = max (min output 1) (- 1)
      in Some (\<lparr>previous_err1 = err, previous_err2 = previous_err1 pid, last_output = output\<rparr>,
               output))"

definition pid_reset :: pid_ctrl_block_t where
  "pid_reset = \<lparr>previous_err1 = 0, previous_err2 = 0, last_output = 0\<rparr>"

text \<open>
  A controller that never fails and whose output the cast of \<open>set_motor_power\<close> can
  take: \<open>\<bar>out\<bar> * 1024 < 2 ^ 32\<close>.
\<close>

definition pid_in_range :: "('p \<Rightarrow> real \<Rightarrow> ('p \<times> real) option) \<Rightarrow> bool" where
  "pid_in_range pc = (\<forall>p e. \<exists>p' out. pc p e = Some (p', out) \<and> \<bar>out\<bar> < 2 ^ 22)"

subsection \<open>A configured motor\<close>

text \<open>
  The peripherals as \<open>configure_motor\<close> leaves them (duties 0, counting held, count
  cleared) and a motor on PWM channels 0 and 1 with its scalar fields at zero. They are
  the concrete inputs of the evaluated theorems.
\<close>

definition hw_configured :: hw_state where
  "hw_configured =
     \<lparr>ledc_duty = (\<lambda>_. 0), ledc_output = (\<lambda>_. 0),
      pcnt_edge_action = (\<lambda>_. (PCNT_CHANNEL_EDGE_ACTION_HOLD, PCNT_CHANNEL_EDGE_ACTION_HOLD)),
      pcnt_count = (\<lambda>_. 0)\<rparr>"

definition motor_configured :: "'p \<Rightarrow> 'p motor_handle_t" where
  "motor_configured pid =
     \<lparr>enable_pin = 0, chan_a = 0, chan_b = 1,
      encoder = \<lparr>unit = 0, channel = 0, count = 0\<rparr>,
      pid_controller = pid, pid_timer = 0,
      cmd_velocity = 0, reported_speed = 0, cmd_power = 0\<rparr>"

section \<open>Socket manager (socket\_mgr.c)\<close>

text \<open>
  The two tasks are loops over what the network and the queue deliver. A task's run is a
  function of the list of results that \<open>recvfrom\<close> (or \<open>xQueueReceive\<close>) returns, in
  order; it gives the list of the task's observable effects and, for the receive task, how
  the run ends: \<open>Running\<close> when the list is used up and the task waits for the next
  datagram, \<open>Returned\<close> when the task function has returned, \<open>Crashed\<close> when it has
  called a null function pointer.

  The nanopb functions and the helpers of pb\_utils are parameters:
  \<^item> \<open>decode_unionmessage_type stream\<close> gives the descriptor of the submessage named by
    the envelope, or \<open>None\<close> for \<open>NULL\<close>, and the advanced stream;
  \<^item> \<open>decode_unionmessage_contents stream fields dest\<close> gives the status, the
    destination struct as the decoder leaves it, and the stream;
  \<^item> \<open>pb_encode tx_buffer msg\<close> gives the status, \<open>stream.bytes_written\<close> and the
    buffer as the encoder leaves it.
\<close>

type_synonym byte = "8 word"

datatype pb_msgdesc_t = TwistCmd_fields | Other_fields nat

text \<open>
  Modelled from the spec: the message types of messages.pb.h, which is not under src/.
  Section 6 of the spec: the inbound velocity command carries two floating-point fields
  (linear, angular).
\<close>

record TwistCmd =
  linear :: real
  angular :: real

text \<open>The empty initialiser \<open>TwistCmd msg = {}\<close>.\<close>

definition TwistCmd_init_zero :: TwistCmd where
  "TwistCmd_init_zero = \<lparr>linear = 0, angular = 0\<rparr>"

record pb_istream_t =
  bytes_left :: "byte list"
  errmsg :: "string option"

definition pb_istream_from_buffer :: "byte list \<Rightarrow> int \<Rightarrow> pb_istream_t" where
  "pb_istream_from_buffer buf len = \<lparr>bytes_left = take (nat len) buf, errmsg = None\<rparr>"

definition PB_GET_ERROR :: "pb_istream_t \<Rightarrow> string" where
  "PB_GET_ERROR stream = (case errmsg stream of None \<Rightarrow> ''(none)'' | Some e \<Rightarrow> e)"

text \<open>
  Observable effects: an error log line, a call of the registered handler (identified by
  a number) with the message passed to it, a datagram handed to \<open>sendto\<close>.
\<close>

datatype effect =
  ESP_LOGE string
| Handler_Called nat TwistCmd
| Sendto "byte list"

datatype task_status = Running | Returned | Crashed

definition MAX_RX_CALLBACKS :: nat where
  "MAX_RX_CALLBACKS = 1"

text \<open>The only index of a table of \<open>MAX_RX_CALLBACKS\<close> entries.\<close>

definition eTwistCmd :: nat where
  "eTwistCmd = 0"

text \<open>The static table \<open>rx_callbacks\<close> starts zeroed: every entry is a null pointer.\<close>

definition rx_callbacks_init :: "nat \<Rightarrow> nat option" where
  "rx_callbacks_init = (\<lambda>_. None)"

definition register_callback ::
  "(nat \<Rightarrow> nat option) \<Rightarrow> nat \<Rightarrow> nat \<Rightarrow> (nat \<Rightarrow> nat option)" where
  "register_callback rx_callbacks callback type = rx_callbacks(type := Some callback)"

text \<open>
  One pass through the body of the \<open>while (1)\<close> of \<open>socket_rx_task\<close>, for the result
  \<open>(len, rx_buffer)\<close> of \<open>recvfrom\<close>.
\<close>

definition socket_rx_step ::
  "(pb_istream_t \<Rightarrow> pb_msgdesc_t option \<times> pb_istream_t) \<Rightarrow>
   (pb_istream_t \<Rightarrow> pb_msgdesc_t \<Rightarrow> TwistCmd \<Rightarrow> bool \<times> TwistCmd \<times> pb_istream_t) \<Rightarrow>
   (nat \<Rightarrow> nat option) \<Rightarrow> int \<times> byte list \<Rightarrow> task_status \<times> effect list" where
  "socket_rx_step decode_unionmessage_type decode_unionmessage_contents rx_callbacks r =
     (case r of (len, rx_buffer) \<Rightarrow>
        if len < 0 then (Returned, [ESP_LOGE ''recvfrom failed: errno %d''])
        else
          (let stream = pb_istream_from_buffer rx_buffer len;
               (type, stream1) = decode_unionmessage_type stream
           in if type = Some TwistCmd_fields then
                (let (status, msg, stream2) =
                       decode_unionmessage_contents stream1 TwistCmd_fields TwistCmd_init_zero
                 in case rx_callbacks eTwistCmd of
                      None \<Rightarrow> (Crashed, [])
                    | Some callback \<Rightarrow>
                        (Running,
                         Handler_Called callback msg #
                         (if \<not> status then [ESP_LOGE (''Decode failed: '' @ PB_GET_ERROR stream2)]
                          else [])))
              else (Running, [ESP_LOGE (''Decode failed: '' @ PB_GET_ERROR stream1)])))"

fun socket_rx_task ::
  "(pb_istream_t \<Rightarrow> pb_msgdesc_t option \<times> pb_istream_t) \<Rightarrow>
   (pb_istream_t \<Rightarrow> pb_msgdesc_t \<Rightarrow> TwistCmd \<Rightarrow> bool \<times> TwistCmd \<times> pb_istream_t) \<Rightarrow>
   (nat \<Rightarrow> nat option) \<Rightarrow> (int \<times> byte list) list \<Rightarrow> task_status \<times> effect list" where
  "socket_rx_task dt dc rx_callbacks [] = (Running, [])"
| "socket_rx_task dt dc rx_callbacks (r # rs) =
     (case socket_rx_step dt dc rx_callbacks r of
        (Running, es) \<Rightarrow>
          (case socket_rx_task dt dc rx_callbacks rs of (st, es') \<Rightarrow> (st, es @ es'))
      | (st, es) \<Rightarrow> (st, es))"

text \<open>
  One pass through the body of the \<open>while (1)\<close> of \<open>socket_tx_task\<close>: \<open>received\<close> is
  \<open>Some msg\<close> when \<open>xQueueReceive\<close> returned \<open>pdTRUE\<close> with \<open>msg\<close>. The static
  \<open>tx_buffer\<close> is carried from one pass to the next.
\<close>

definition socket_tx_step ::
  "(byte list \<Rightarrow> 'pkt \<Rightarrow> bool \<times> nat \<times> byte list) \<Rightarrow> byte list \<Rightarrow> 'pkt option \<Rightarrow>
   byte list \<times> effect list" where
  "socket_tx_step pb_encode tx_buffer received =
     (case received of
        None \<Rightarrow> (tx_buffer, [])
      | Some msg \<Rightarrow>
          (let (status, bytes_written, tx_buffer') = pb_encode tx_buffer msg
           in (tx_buffer',
               (if \<not> status then [ESP_LOGE ''Failed to serialize message.''] else []) @
               [Sendto (take bytes_written tx_buffer')])))"

fun socket_tx_task ::
  "(byte list \<Rightarrow> 'pkt \<Rightarrow> bool \<times> nat \<times> byte list) \<Rightarrow> byte list \<Rightarrow> 'pkt option list \<Rightarrow>
   effect list" where
  "socket_tx_task pb_encode tx_buffer [] = []"
| "socket_tx_task pb_encode tx_buffer (r # rs) =
     (case socket_tx_step pb_encode tx_buffer r of
        (tx_buffer', es) \<Rightarrow> es @ socket_tx_task pb_encode tx_buffer' rs)"

subsection \<open>Decoder and encoder outcomes used as concrete inputs\<close>

text \<open>
  The outcomes of the library calls on three kinds of datagram and envelope, as values
  for the parameters above: an envelope that names the velocity command; a body that ends
  early, which the decoder reports by status \<open>false\<close> and an error message, leaving the
  destination as it was; a body that decodes; an envelope that does not fit the buffer,
  which the encoder reports by status \<open>false\<close> after it has written some bytes.
\<close>

definition names_TwistCmd :: "pb_istream_t \<Rightarrow> pb_msgdesc_t option \<times> pb_istream_t" where
  "names_TwistCmd s = (Some TwistCmd_fields, s\<lparr>bytes_left := drop 1 (bytes_left s)\<rparr>)"

definition body_truncated ::
  "pb_istream_t \<Rightarrow> pb_msgdesc_t \<Rightarrow> TwistCmd \<Rightarrow> bool \<times> TwistCmd \<times> pb_istream_t" where
  "body_truncated s desc dest = (False, dest, s\<lparr>errmsg := Some ''end-of-stream''\<rparr>)"

definition body_decodes ::
  "pb_istream_t \<Rightarrow> pb_msgdesc_t \<Rightarrow> TwistCmd \<Rightarrow> bool \<times> TwistCmd \<times> pb_istream_t" where
  "body_decodes s desc dest = (True, \<lparr>linear = 1, angular = 0\<rparr>, s\<lparr>bytes_left := []\<rparr>)"

definition encode_stream_full :: "byte list \<Rightarrow> nat \<Rightarrow> bool \<times> nat \<times> byte list" where
  "encode_stream_full tx_buffer msg = (False, 2, [8, 1] @ drop 2 tx_buffer)"

section \<open>Properties of the motor driver\<close>

subsection \<open>Duty arithmetic\<close>

lemma float_to_uint32_nonneg:
  "0 \<le> x \<Longrightarrow> x < 2 ^ 32 \<Longrightarrow> float_to_uint32 x = Inr (word_of_int \<lfloor>x\<rfloor>)"
  by (simp add: float_to_uint32_def)

lemma full_scale: "(2::'a::comm_semiring_1) ^ PWM_TIMER_RESOLUTION = 1024"
  by (simp add: PWM_TIMER_RESOLUTION_def LEDC_TIMER_10_BIT_def)

lemma unat_duty:
  assumes "0 \<le> x" "x < 2 ^ 32"
  shows "unat (word_of_int \<lfloor>x\<rfloor> :: 32 word) = nat \<lfloor>x\<rfloor>"
proof -
  have "\<lfloor>x\<rfloor> < 2 ^ 32" using assms(2) by (simp add: floor_less_iff)
  moreover have "0 \<le> \<lfloor>x\<rfloor>" using assms(1) by simp
  ultimately show ?thesis
    by (simp add: unat_eq_nat_uint uint_word_of_int take_bit_eq_mod)
qed

lemma duty_within_full_scale: "(nat \<lfloor>y\<rfloor> \<le> 1024) = (y < (1025::real))"
proof -
  have "(nat \<lfloor>y\<rfloor> \<le> 1024) = (\<lfloor>y\<rfloor> \<le> 1024)" by (simp add: nat_le_iff)
  also have "\<dots> = (\<lfloor>y\<rfloor> < 1025)" by linarith
  also have "\<dots> = (y < 1025)" by (simp add: floor_less_iff)
  finally show ?thesis .
qed

subsection \<open>The actuator, branch by branch\<close>

lemma set_motor_power_pos:
  assumes "0 < pwr" "pwr < 2 ^ 22" "chan_a motor \<noteq> chan_b motor"
  shows "\<exists>hw'. set_motor_power hw motor pwr = Inr hw' \<and>
     ledc_duty hw' (chan_b motor) = word_of_int \<lfloor>pwr * 1024\<rfloor> \<and>
     ledc_duty hw' (chan_a motor) = 0 \<and>
     ledc_output hw' (chan_b motor) = word_of_int \<lfloor>pwr * 1024\<rfloor> \<and>
     ledc_output hw' (chan_a motor) = 0 \<and>
     pcnt_edge_action hw' (channel (encoder motor)) =
       (PCNT_CHANNEL_EDGE_ACTION_DECREASE, PCNT_CHANNEL_EDGE_ACTION_DECREASE)"
proof -
  have "float_to_uint32 (pwr * 1024) = Inr (word_of_int \<lfloor>pwr * 1024\<rfloor>)"
    using assms(1,2) by (intro float_to_uint32_nonneg) simp_all
  then show ?thesis
    using assms(1,3)
    by (simp add: set_motor_power_def full_scale ledc_set_duty_def ledc_update_duty_def
        pcnt_channel_set_edge_action_def)
qed

lemma set_motor_power_nonpos:
  assumes "pwr \<le> 0" "- (2 ^ 22) < pwr" "chan_a motor \<noteq> chan_b motor"
  shows "\<exists>hw'. set_motor_power hw motor pwr = Inr hw' \<and>
     ledc_duty hw' (chan_a motor) = word_of_int \<lfloor>- pwr * 1024\<rfloor> \<and>
     ledc_duty hw' (chan_b motor) = 0 \<and>
     ledc_output hw' (chan_a motor) = word_of_int \<lfloor>- pwr * 1024\<rfloor> \<and>
     ledc_output hw' (chan_b motor) = 0 \<and>
     pcnt_edge_action hw' (channel (encoder motor)) =
       (if pwr = 0
        then (PCNT_CHANNEL_EDGE_ACTION_HOLD, PCNT_CHANNEL_EDGE_ACTION_HOLD)
        else (PCNT_CHANNEL_EDGE_ACTION_INCREASE, PCNT_CHANNEL_EDGE_ACTION_INCREASE))"
proof -
  have "float_to_uint32 (- pwr * 1024) = Inr (word_of_int \<lfloor>- pwr * 1024\<rfloor>)"
    using assms(1,2) by (intro float_to_uint32_nonneg) simp_all
  then show ?thesis
    using assms(1,3)
    by (simp add: set_motor_power_def full_scale ledc_set_duty_def ledc_update_duty_def
        pcnt_channel_set_edge_action_def)
qed

text \<open>
  The cast is defined, and the call returns, for every power of magnitude below
  \<open>2 ^ 22\<close>, whether or not the two channels are distinct.
\<close>

lemma set_motor_power_total:
  assumes "\<bar>pwr\<bar> < 2 ^ 22"
  shows "\<exists>hw'. set_motor_power hw motor pwr = Inr hw'"
proof (cases "pwr > 0")
  case True
  have "float_to_uint32 (pwr * 1024) = Inr (word_of_int \<lfloor>pwr * 1024\<rfloor>)"
    using assms True by (intro float_to_uint32_nonneg) simp_all
  then show ?thesis using True by (simp add: set_motor_power_def full_scale)
next
  case False
  have "float_to_uint32 (- pwr * 1024) = Inr (word_of_int \<lfloor>- pwr * 1024\<rfloor>)"
    using assms False by (intro float_to_uint32_nonneg) simp_all
  then show ?thesis using False by (simp add: set_motor_power_def full_scale Let_def)
qed

subsection \<open>Direction and duty\<close>

text \<open>
  C4: the spec sets the encoder's counting to increasing for a positive power and to
  decreasing for a negative one. The code has the two directions the other way round.
  For a motor with two distinct PWM channels and a nonzero power of magnitude below
  \<open>2 ^ 22\<close>, \<open>set_motor_power\<close> returns, and
  \<^item> if the power is positive, channel B drives the integer part of
    \<open>power * 1024\<close>, channel A drives 0 and the encoder counts down (both edge actions
    \<open>DECREASE\<close>);
  \<^item> if the power is negative, channel A drives the integer part of \<open>- power * 1024\<close>,
    channel B drives 0 and the encoder counts up (both edge actions \<open>INCREASE\<close>).

  The duties are as the spec has them. The directions are not what the regulator of the
  same file needs: it computes its error as the commanded velocity minus the reported
  speed and feeds a controller with positive gains, so a positive power has to make the
  count, and with it the reported speed, go up. The section on the velocity regulator
  shows that under the code's pairing the reported speed after a positive power is
  negative.
\<close>

theorem set_motor_power_direction:
  assumes "chan_a motor \<noteq> chan_b motor" and "pwr \<noteq> 0" and "\<bar>pwr\<bar> < 2 ^ 22"
  shows "\<exists>hw'. set_motor_power hw motor pwr = Inr hw' \<and>
     (if pwr > 0
      then ledc_output hw' (chan_b motor) = word_of_int \<lfloor>pwr * 2 ^ PWM_TIMER_RESOLUTION\<rfloor> \<and>
           ledc_output hw' (chan_a motor) = 0 \<and>
           pcnt_edge_action hw' (channel (encoder motor)) =
             (PCNT_CHANNEL_EDGE_ACTION_DECREASE, PCNT_CHANNEL_EDGE_ACTION_DECREASE)
      else ledc_output hw' (chan_a motor) = word_of_int \<lfloor>- pwr * 2 ^ PWM_TIMER_RESOLUTION\<rfloor> \<and>
           ledc_output hw' (chan_b motor) = 0 \<and>
           pcnt_edge_action hw' (channel (encoder motor)) =
             (PCNT_CHANNEL_EDGE_ACTION_INCREASE, PCNT_CHANNEL_EDGE_ACTION_INCREASE))"
proof (cases "pwr > 0")
  case True
  then have "pwr < 2 ^ 22" using assms(3) by simp
  from set_motor_power_pos [OF True this assms(1), of hw] show ?thesis
    using True by (auto simp: full_scale)
next
  case False
  then have neg: "pwr \<le> 0" and lo: "- (2 ^ 22) < pwr" using assms(3) by simp_all
  from set_motor_power_nonpos [OF neg lo assms(1), of hw] show ?thesis
    using False assms(2) by (auto simp: full_scale)
qed

text \<open>
  C4 at power 1/2 on the configured motor: channel B drives 512, channel A 0, and the
  edge actions are both \<open>DECREASE\<close>, not \<open>INCREASE\<close>.
\<close>

theorem set_motor_power_direction_witness:
  "chan_a (motor_configured ()) \<noteq> chan_b (motor_configured ()) \<and> (1 / 2 :: real) \<noteq> 0 \<and>
   \<bar>1 / 2 :: real\<bar> < 2 ^ 22 \<and>
   (\<exists>hw'. set_motor_power hw_configured (motor_configured ()) (1 / 2) = Inr hw' \<and>
      ledc_output hw' 1 = 512 \<and> ledc_output hw' 0 = 0 \<and>
      pcnt_edge_action hw' 0 =
        (PCNT_CHANNEL_EDGE_ACTION_DECREASE, PCNT_CHANNEL_EDGE_ACTION_DECREASE) \<and>
      pcnt_edge_action hw' 0 \<noteq>
        (PCNT_CHANNEL_EDGE_ACTION_INCREASE, PCNT_CHANNEL_EDGE_ACTION_INCREASE))"
  using set_motor_power_direction [of "motor_configured ()" "1 / 2" hw_configured]
  by (auto simp: motor_configured_def full_scale)

subsection \<open>No clamping\<close>

text \<open>
  C5, as the spec states it, fails: the actuator does not clamp. At power 2 the call
  returns and channel B drives 2048, twice the full-scale count.
\<close>

theorem set_motor_power_clamp_counterexample:
  "\<not> isl (set_motor_power hw_configured (motor_configured ()) 2) \<and>
   unat (ledc_output (projr (set_motor_power hw_configured (motor_configured ()) 2))
           (chan_b (motor_configured ()))) = 2048 \<and>
   (2048 :: nat) > 2 ^ PWM_TIMER_RESOLUTION"
  by (simp add: set_motor_power_def float_to_uint32_def full_scale ledc_set_duty_def
      ledc_update_duty_def pcnt_channel_set_edge_action_def motor_configured_def hw_configured_def
      PWM_TIMER_RESOLUTION_def LEDC_TIMER_10_BIT_def)

text \<open>
  C5 (amended): the actuator computes the duty without clamping. For a motor with two
  distinct PWM channels and a power of magnitude below \<open>2 ^ 22\<close>, the driven channel
  (B for a positive power, A otherwise) gets the integer part of \<open>\<bar>power\<bar> * 1024\<close>
  and the other channel 0; that duty is within the full-scale count 1024 exactly when
  \<open>\<bar>power\<bar> < 1 + 1/1024\<close>, which holds for every power in [-1.0, 1.0].
\<close>

theorem set_motor_power_unclamped:
  assumes "chan_a motor \<noteq> chan_b motor" and "\<bar>pwr\<bar> < 2 ^ 22"
  shows "\<exists>hw'. set_motor_power hw motor pwr = Inr hw' \<and>
     unat (ledc_output hw' (if pwr > 0 then chan_b motor else chan_a motor)) =
       nat \<lfloor>\<bar>pwr\<bar> * 2 ^ PWM_TIMER_RESOLUTION\<rfloor> \<and>
     ledc_output hw' (if pwr > 0 then chan_a motor else chan_b motor) = 0 \<and>
     (unat (ledc_output hw' (if pwr > 0 then chan_b motor else chan_a motor))
        \<le> 2 ^ PWM_TIMER_RESOLUTION) = (\<bar>pwr\<bar> < 1 + 1 / 2 ^ PWM_TIMER_RESOLUTION)"
proof (cases "pwr > 0")
  case True
  then have hi: "pwr < 2 ^ 22" using assms(2) by simp
  from set_motor_power_pos [OF True hi assms(1), of hw] obtain hw' where
    r: "set_motor_power hw motor pwr = Inr hw'" and
    b: "ledc_output hw' (chan_b motor) = word_of_int \<lfloor>pwr * 1024\<rfloor>" and
    a: "ledc_output hw' (chan_a motor) = 0"
    by blast
  have u: "unat (word_of_int \<lfloor>pwr * 1024\<rfloor> :: 32 word) = nat \<lfloor>pwr * 1024\<rfloor>"
    using True hi by (intro unat_duty) simp_all
  have "(nat \<lfloor>pwr * 1024\<rfloor> \<le> 1024) = (pwr * 1024 < 1025)"
    by (rule duty_within_full_scale)
  then show ?thesis using True r a b u by (simp add: full_scale)
next
  case False
  then have np: "pwr \<le> 0" and lo: "- (2 ^ 22) < pwr" using assms(2) by simp_all
  from set_motor_power_nonpos [OF np lo assms(1), of hw] obtain hw' where
    r: "set_motor_power hw motor pwr = Inr hw'" and
    a: "ledc_output hw' (chan_a motor) = word_of_int \<lfloor>- pwr * 1024\<rfloor>" and
    b: "ledc_output hw' (chan_b motor) = 0"
    by blast
  have u: "unat (word_of_int \<lfloor>- pwr * 1024\<rfloor> :: 32 word) = nat \<lfloor>- pwr * 1024\<rfloor>"
    using np lo by (intro unat_duty) simp_all
  have "(nat \<lfloor>- pwr * 1024\<rfloor> \<le> 1024) = (- pwr * 1024 < 1025)"
    by (rule duty_within_full_scale)
  then show ?thesis using False np r a b u by (simp add: full_scale)
qed

text \<open>The amended C5 at power 3: channel B drives 3072, beyond the full-scale count.\<close>

theorem set_motor_power_unclamped_witness:
  "chan_a (motor_configured ()) \<noteq> chan_b (motor_configured ()) \<and> \<bar>3 :: real\<bar> < 2 ^ 22 \<and>
   (\<exists>hw'. set_motor_power hw_configured (motor_configured ()) 3 = Inr hw' \<and>
      unat (ledc_output hw' 1) = 3072 \<and> ledc_output hw' 0 = 0 \<and>
      \<not> unat (ledc_output hw' 1) \<le> 2 ^ PWM_TIMER_RESOLUTION)"
  using set_motor_power_unclamped [of "motor_configured ()" 3 hw_configured]
  by (simp add: motor_configured_def full_scale)

subsection \<open>Zero power\<close>

text \<open>
  C7: a power of exactly 0 sets both PWM channel duties to 0, in the duty registers and
  in what the channels drive, and leaves the encoder's counting held (both edge actions
  \<open>HOLD\<close>). This holds for every peripheral state and every motor.
\<close>

theorem set_motor_power_zero:
  "\<exists>hw'. set_motor_power hw motor 0 = Inr hw' \<and>
     ledc_duty hw' (chan_a motor) = 0 \<and> ledc_duty hw' (chan_b motor) = 0 \<and>
     ledc_output hw' (chan_a motor) = 0 \<and> ledc_output hw' (chan_b motor) = 0 \<and>
     pcnt_edge_action hw' (channel (encoder motor)) =
       (PCNT_CHANNEL_EDGE_ACTION_HOLD, PCNT_CHANNEL_EDGE_ACTION_HOLD)"
  by (simp add: set_motor_power_def float_to_uint32_def ledc_set_duty_def ledc_update_duty_def
      pcnt_channel_set_edge_action_def)

subsection \<open>One channel is always off\<close>

text \<open>
  C9: after \<open>set_motor_power\<close>, at most one of the motor's two PWM channels has a
  nonzero duty, both in the duty registers and in what the channels drive. The two
  channels are distinct, and the power is one for which the cast is defined (magnitude
  below \<open>2 ^ 22\<close>), so that the call returns.
\<close>

theorem set_motor_power_one_channel_zero:
  assumes "chan_a motor \<noteq> chan_b motor" and "\<bar>pwr\<bar> < 2 ^ 22"
  shows "\<exists>hw'. set_motor_power hw motor pwr = Inr hw' \<and>
     (ledc_duty hw' (chan_a motor) = 0 \<or> ledc_duty hw' (chan_b motor) = 0) \<and>
     (ledc_output hw' (chan_a motor) = 0 \<or> ledc_output hw' (chan_b motor) = 0)"
proof (cases "pwr > 0")
  case True
  then have "pwr < 2 ^ 22" using assms(2) by simp
  from set_motor_power_pos [OF True this assms(1), of hw] show ?thesis by blast
next
  case False
  then have "pwr \<le> 0" and "- (2 ^ 22) < pwr" using assms(2) by simp_all
  from set_motor_power_nonpos [OF this assms(1), of hw] show ?thesis by blast
qed

text \<open>C9 at power -3/4 on the configured motor.\<close>

theorem set_motor_power_one_channel_zero_witness:
  "chan_a (motor_configured ()) \<noteq> chan_b (motor_configured ()) \<and> \<bar>- 3 / 4 :: real\<bar> < 2 ^ 22 \<and>
   (\<exists>hw'. set_motor_power hw_configured (motor_configured ()) (- 3 / 4) = Inr hw' \<and>
      (ledc_duty hw' 0 = 0 \<or> ledc_duty hw' 1 = 0) \<and>
      (ledc_output hw' 0 = 0 \<or> ledc_output hw' 1 = 0))"
  using set_motor_power_one_channel_zero [of "motor_configured ()" "- 3 / 4" hw_configured]
  by (simp add: motor_configured_def)

subsection \<open>The setpoint's frame\<close>

text \<open>
  C10: \<open>set_motor_velocity\<close> writes the commanded velocity and nothing else: the
  reported speed, the commanded power, the encoder state with its last-count snapshot,
  the PID control block, the timer handle, the PWM channel handles and the enable pin are
  as before. The function has no access to the peripherals.
\<close>

theorem set_motor_velocity_frame:
  "cmd_velocity (set_motor_velocity motor v) = v \<and>
   reported_speed (set_motor_velocity motor v) = reported_speed motor \<and>
   cmd_power (set_motor_velocity motor v) = cmd_power motor \<and>
   encoder (set_motor_velocity motor v) = encoder motor \<and>
   pid_controller (set_motor_velocity motor v) = pid_controller motor \<and>
   pid_timer (set_motor_velocity motor v) = pid_timer motor \<and>
   chan_a (set_motor_velocity motor v) = chan_a motor \<and>
   chan_b (set_motor_velocity motor v) = chan_b motor \<and>
   enable_pin (set_motor_velocity motor v) = enable_pin motor \<and>
   motor_handle_t.more (set_motor_velocity motor v) = motor_handle_t.more motor"
  by (simp add: set_motor_velocity_def)

section \<open>Properties of the velocity regulator\<close>

lemma pid_compute_incremental_in_range: "pid_in_range pid_compute_incremental"
  unfolding pid_in_range_def pid_compute_incremental_def Let_def
  by (auto simp: abs_if max_def min_def)

text \<open>What a call of \<open>pid_callback\<close> that returns has written to the motor.\<close>

lemma pid_callback_Inr:
  assumes "pid_callback pc hw motor = Inr (hw', motor')"
  shows "reported_speed motor' =
           PULSES_TO_RAD (pulses_elapsed hw motor) * (PID_LOOP_PERIOD_MS / 1000)"
    and "count (encoder motor') = pcnt_unit_get_count hw (unit (encoder motor))"
    and "unit (encoder motor') = unit (encoder motor)"
    and "cmd_velocity motor' = cmd_velocity motor"
  using assms
  by (auto simp: pid_callback_def Let_def split: option.splits sum.splits)

text \<open>With a controller that stays in range, every call returns.\<close>

lemma pid_callback_total:
  assumes "pid_in_range pc"
  shows "\<exists>hw' motor'. pid_callback pc hw motor = Inr (hw', motor')"
proof -
  let ?m1 = "motor\<lparr>reported_speed :=
               PULSES_TO_RAD (pulses_elapsed hw motor) * (PID_LOOP_PERIOD_MS / 1000)\<rparr>"
  from assms obtain p' out where
    pc: "pc (pid_controller ?m1) (cmd_velocity ?m1 - reported_speed ?m1) = Some (p', out)" and
    out: "\<bar>out\<bar> < 2 ^ 22"
    unfolding pid_in_range_def by blast
  from set_motor_power_total [OF out] obtain hw' where
    "set_motor_power hw (?m1\<lparr>pid_controller := p', cmd_power := out\<rparr>) out = Inr hw'"
    by blast
  with pc show ?thesis
    by (simp add: pid_callback_def Let_def)
qed

lemma pid_ticks_total:
  assumes "pid_in_range pc"
  shows "\<exists>ds hw' motor'. pid_ticks pc cs hw motor = Inr (ds, hw', motor')"
proof (induction cs arbitrary: hw motor)
  case Nil
  show ?case by simp
next
  case (Cons c cs)
  let ?hw0 = "hw\<lparr>pcnt_count := (pcnt_count hw)(unit (encoder motor) := c)\<rparr>"
  from pid_callback_total [OF assms, of ?hw0 motor] obtain hw1 m1 where
    s: "pid_callback pc ?hw0 motor = Inr (hw1, m1)" by blast
  from Cons.IH [of hw1 m1] obtain ds hw' motor' where
    "pid_ticks pc cs hw1 m1 = Inr (ds, hw', motor')" by blast
  with s show ?case by (simp add: Let_def)
qed

subsection \<open>The sign of the feedback\<close>

text \<open>
  A call of \<open>set_motor_power\<close> with a positive power leaves the encoder counting down
  and does not touch the count.
\<close>

lemma set_motor_power_pos_counting:
  assumes "set_motor_power hw motor pwr = Inr hw'" and "0 < pwr"
  shows "pcnt_edge_action hw' (channel (encoder motor)) =
           (PCNT_CHANNEL_EDGE_ACTION_DECREASE, PCNT_CHANNEL_EDGE_ACTION_DECREASE)"
    and "pcnt_count hw' = pcnt_count hw"
  using assms
  by (auto simp: set_motor_power_def ledc_set_duty_def ledc_update_duty_def
      pcnt_channel_set_edge_action_def split: sum.splits)

lemma pid_callback_pos_counting:
  assumes "pid_callback pc hw motor = Inr (hw', motor')" and "0 < cmd_power motor'"
  shows "pcnt_edge_action hw' (channel (encoder motor')) =
           (PCNT_CHANNEL_EDGE_ACTION_DECREASE, PCNT_CHANNEL_EDGE_ACTION_DECREASE)"
    and "pcnt_count hw' = pcnt_count hw"
proof -
  from assms(1) obtain p out m where
    s: "set_motor_power hw m out = Inr hw'" and
    m: "encoder m = encoder motor" and
    m': "motor' = m\<lparr>encoder := (encoder m)\<lparr>count := pcnt_unit_get_count hw (unit (encoder m))\<rparr>\<rparr>"
      "cmd_power m = out"
    by (auto simp: pid_callback_def Let_def split: option.splits sum.splits)
  have out: "0 < out" using assms(2) m' by simp
  show "pcnt_edge_action hw' (channel (encoder motor')) =
           (PCNT_CHANNEL_EDGE_ACTION_DECREASE, PCNT_CHANNEL_EDGE_ACTION_DECREASE)"
    using set_motor_power_pos_counting(1) [OF s out] m' by simp
  show "pcnt_count hw' = pcnt_count hw"
    using set_motor_power_pos_counting(2) [OF s out] .
qed

lemma pid_callback_cmd_power:
  assumes "pid_callback pc hw motor = Inr (hw', motor')"
  shows "\<exists>p'. pc (pid_controller motor)
                (cmd_velocity motor -
                 PULSES_TO_RAD (pulses_elapsed hw motor) * (PID_LOOP_PERIOD_MS / 1000))
              = Some (p', cmd_power motor')"
    and "channel (encoder motor') = channel (encoder motor)"
  using assms
  by (auto simp: pid_callback_def Let_def split: option.splits sum.splits)

lemma sint_minus_of_nat:
  assumes "n < 2 ^ 31"
  shows "sint (- of_nat n :: 32 word) = - int n"
proof -
  have "sint (word_of_int (- int n) :: 32 word) = signed_take_bit (LENGTH(32) - 1) (- int n)"
    by (rule sint_sbintrunc')
  moreover have "signed_take_bit 31 (- int n) = - int n"
    using assms by (intro signed_take_bit_int_eq_self) simp_all
  ultimately show ?thesis by simp
qed

text \<open>
  A tick that applies a positive power is followed by a negative reported speed: the
  edges that arrive before the next tick are counted down, so the next delta is negative.
  The error of that tick, the commanded velocity minus the reported speed, is then larger
  than the commanded velocity, and a controller with positive gains pushes the power
  further up.
\<close>

lemma pid_callback_positive_power_reports_negative_speed:
  assumes t1: "pid_callback pc hw motor = Inr (hw1, m1)"
    and pos: "0 < cmd_power m1"
    and n: "0 < n" "n < 2 ^ 31"
    and t2: "pid_callback pc
               (pcnt_count_edges hw1 (unit (encoder m1)) (channel (encoder m1)) n 0) m1
             = Inr (hw2, m2)"
  shows "reported_speed m2 < 0"
proof -
  let ?hw = "pcnt_count_edges hw1 (unit (encoder m1)) (channel (encoder m1)) n 0"
  have act: "pcnt_edge_action hw1 (channel (encoder m1)) =
               (PCNT_CHANNEL_EDGE_ACTION_DECREASE, PCNT_CHANNEL_EDGE_ACTION_DECREASE)"
    using pid_callback_pos_counting(1) [OF t1 pos] .
  have cnt: "pcnt_count hw1 (unit (encoder m1)) = count (encoder m1)"
    using pid_callback_pos_counting(2) [OF t1 pos] pid_callback_Inr(2,3) [OF t1]
    by (simp add: pcnt_unit_get_count_def)
  have "pulses_elapsed ?hw m1 = - of_nat n"
    using act cnt
    by (simp add: pulses_elapsed_def pcnt_unit_get_count_def pcnt_count_edges_def
        pcnt_edge_move_def)
  then have "PULSES_TO_RAD (pulses_elapsed ?hw m1) < 0"
    using sint_minus_of_nat [OF n(2)] n(1)
    by (simp add: PULSES_TO_RAD_def PULSES_PER_ROTATION_def)
  then show ?thesis
    using pid_callback_Inr(1) [OF t2]
    by (simp add: PID_LOOP_PERIOD_MS_def mult_less_0_iff)
qed

text \<open>
  With the incremental controller, from rest, at a commanded velocity of 1: the first
  tick applies the power 1; after ten edges the second tick reports a negative speed and
  sees an error above the commanded velocity.
\<close>

lemma positive_command_reports_negative_speed:
  "\<exists>hw1 m1 hw2 m2.
     pid_callback pid_compute_incremental hw_configured
       ((motor_configured pid_reset)\<lparr>cmd_velocity := 1\<rparr>) = Inr (hw1, m1) \<and>
     cmd_power m1 = 1 \<and>
     pid_callback pid_compute_incremental (pcnt_count_edges hw1 0 0 10 0) m1 = Inr (hw2, m2) \<and>
     reported_speed m2 < 0 \<and> 1 < cmd_velocity m2 - reported_speed m2"
proof -
  let ?m = "(motor_configured pid_reset)\<lparr>cmd_velocity := 1\<rparr>"
  from pid_callback_total [OF pid_compute_incremental_in_range] obtain hw1 m1 where
    t1: "pid_callback pid_compute_incremental hw_configured ?m = Inr (hw1, m1)" by blast
  have p1: "cmd_power m1 = 1"
    using pid_callback_cmd_power(1) [OF t1]
    by (simp add: pulses_elapsed_def pcnt_unit_get_count_def hw_configured_def
        motor_configured_def pid_reset_def pid_compute_incremental_def PULSES_TO_RAD_def Let_def)
  have u: "unit (encoder m1) = 0" "channel (encoder m1) = 0" "cmd_velocity m1 = 1"
    using pid_callback_Inr(3,4) [OF t1] pid_callback_cmd_power(2) [OF t1]
    by (simp_all add: motor_configured_def)
  from pid_callback_total [OF pid_compute_incremental_in_range] obtain hw2 m2 where
    t2: "pid_callback pid_compute_incremental (pcnt_count_edges hw1 0 0 10 0) m1 = Inr (hw2, m2)"
    by blast
  have "reported_speed m2 < 0"
    using pid_callback_positive_power_reports_negative_speed [OF t1, of 10 hw2 m2] p1 t2 u
    by simp
  moreover have "cmd_velocity m2 = 1" using pid_callback_Inr(4) [OF t2] u by simp
  ultimately show ?thesis using t1 t2 p1 by auto
qed

subsection \<open>The reported speed\<close>

text \<open>
  C1: the spec computes the reported velocity as the angular displacement of the tick's
  pulse delta divided by the control period in seconds. The code multiplies by the period
  instead: whenever \<open>pid_callback\<close> returns, the reported speed it has stored is
  \<open>PULSES_TO_RAD(pulses_elapsed) * (PID_LOOP_PERIOD_MS / 1000)\<close>.
\<close>

theorem pid_callback_reported_speed:
  assumes "pid_callback pc hw motor = Inr (hw', motor')"
  shows "reported_speed motor' =
           PULSES_TO_RAD (pcnt_unit_get_count hw (unit (encoder motor)) - count (encoder motor))
             * (PID_LOOP_PERIOD_MS / 1000)"
  using pid_callback_Inr(1) [OF assms] by (simp add: pulses_elapsed_def)

text \<open>
  C1 at a delta of 30 pulses, one rotation in one tick: the call returns with a reported
  speed of \<open>pi / 50\<close>, where the displacement divided by the period is \<open>200 * pi\<close>.
\<close>

theorem pid_callback_reported_speed_witness:
  "\<not> isl (pid_callback pid_compute_incremental (hw_configured\<lparr>pcnt_count := (\<lambda>_. 30)\<rparr>)
            (motor_configured pid_reset)) \<and>
   reported_speed (snd (projr (pid_callback pid_compute_incremental
        (hw_configured\<lparr>pcnt_count := (\<lambda>_. 30)\<rparr>) (motor_configured pid_reset)))) = pi / 50 \<and>
   PULSES_TO_RAD 30 / (PID_LOOP_PERIOD_MS / 1000) = 200 * pi \<and>
   pi / 50 \<noteq> 200 * pi"
proof -
  let ?hw = "hw_configured\<lparr>pcnt_count := (\<lambda>_. 30)\<rparr>"
  from pid_callback_total [OF pid_compute_incremental_in_range] obtain hw' motor' where
    r: "pid_callback pid_compute_incremental ?hw (motor_configured pid_reset) = Inr (hw', motor')"
    by blast
  have "reported_speed motor' = pi / 50"
    using pid_callback_reported_speed [OF r]
    by (simp add: pcnt_unit_get_count_def motor_configured_def
        PULSES_TO_RAD_def PULSES_PER_ROTATION_def PID_LOOP_PERIOD_MS_def)
  moreover have "PULSES_TO_RAD 30 / (PID_LOOP_PERIOD_MS / 1000) = 200 * pi"
    by (simp add: PULSES_TO_RAD_def PULSES_PER_ROTATION_def PID_LOOP_PERIOD_MS_def)
  moreover have "pi / 50 \<noteq> 200 * pi" using pi_gt_zero by simp
  ultimately show ?thesis unfolding r by simp
qed

subsection \<open>Encoder deltas\<close>

text \<open>
  C8: over any sequence of control ticks that run to completion, each tick's delta is the
  current count minus the stored snapshot and the snapshot is then set to the current
  count, once per tick. So there is one delta per tick, each the difference of two
  consecutive readings (the first against the snapshot held before the first tick); the
  deltas sum to the last reading minus that snapshot, and the snapshot ends at the last
  reading. Counts and deltas are 32-bit, and the sum is taken modulo \<open>2 ^ 32\<close>.
\<close>

theorem pid_ticks_deltas_telescope:
  assumes "pid_ticks pc cs hw motor = Inr (ds, hw', motor')"
  shows "ds = map (\<lambda>(c, p). c - p) (zip cs (count (encoder motor) # cs)) \<and>
         length ds = length cs \<and>
         sum_list ds = last (count (encoder motor) # cs) - count (encoder motor) \<and>
         count (encoder motor') = last (count (encoder motor) # cs)"
  using assms
proof (induction cs arbitrary: hw motor ds)
  case Nil
  then show ?case by simp
next
  case (Cons c cs)
  let ?hw0 = "hw\<lparr>pcnt_count := (pcnt_count hw)(unit (encoder motor) := c)\<rparr>"
  from Cons.prems obtain hw1 m1 ds1 where
    s: "pid_callback pc ?hw0 motor = Inr (hw1, m1)" and
    r: "pid_ticks pc cs hw1 m1 = Inr (ds1, hw', motor')" and
    d: "ds = pulses_elapsed ?hw0 motor # ds1"
    by (auto simp: Let_def split: sum.splits)
  have c1: "count (encoder m1) = c"
    using pid_callback_Inr(2) [OF s] by (simp add: pcnt_unit_get_count_def)
  have e: "pulses_elapsed ?hw0 motor = c - count (encoder motor)"
    by (simp add: pulses_elapsed_def pcnt_unit_get_count_def)
  have ih: "ds1 = map (\<lambda>(c, p). c - p) (zip cs (c # cs))"
        "length ds1 = length cs" "sum_list ds1 = last (c # cs) - c"
        "count (encoder motor') = last (c # cs)"
    using Cons.IH [OF r] unfolding c1 by blast+
  have "ds = map (\<lambda>(c, p). c - p) (zip (c # cs) (count (encoder motor) # c # cs))"
    using d e ih(1) by simp
  moreover have "length ds = length (c # cs)" using d ih(2) by simp
  moreover have "sum_list ds = last (count (encoder motor) # c # cs) - count (encoder motor)"
    using d e ih(3) by simp
  moreover have "count (encoder motor') = last (count (encoder motor) # c # cs)"
    using ih(4) by simp
  ultimately show ?case by blast
qed

text \<open>
  C8 with the incremental controller, on two runs. On the readings 5, 12, 7 from a
  snapshot of 0 the three ticks run to completion with the deltas 5, 7, -5, which sum to
  7. Across the wrap-around, from a snapshot of \<open>2 ^ 31 - 8\<close> on the readings
  \<open>2 ^ 31 - 1\<close> and \<open>- 2 ^ 31\<close>, the deltas are 7 and 1.
\<close>

theorem pid_ticks_deltas_telescope_witness:
  "\<not> isl (pid_ticks pid_compute_incremental [5, 12, 7] hw_configured (motor_configured pid_reset)) \<and>
   fst (projr (pid_ticks pid_compute_incremental [5, 12, 7] hw_configured
                 (motor_configured pid_reset))) = [5, 7, - 5] \<and>
   sum_list (fst (projr (pid_ticks pid_compute_incremental [5, 12, 7] hw_configured
                           (motor_configured pid_reset)))) = 7 \<and>
   count (encoder (snd (snd (projr (pid_ticks pid_compute_incremental [5, 12, 7] hw_configured
                           (motor_configured pid_reset)))))) = 7 \<and>
   \<not> isl (pid_ticks pid_compute_incremental [2147483647, - 2147483648] hw_configured
      ((motor_configured pid_reset)\<lparr>encoder := \<lparr>unit = 0, channel = 0, count = 2147483640\<rparr>\<rparr>)) \<and>
   fst (projr (pid_ticks pid_compute_incremental [2147483647, - 2147483648] hw_configured
      ((motor_configured pid_reset)\<lparr>encoder := \<lparr>unit = 0, channel = 0, count = 2147483640\<rparr>\<rparr>)))
     = [7, 1]"
proof -
  let ?m = "(motor_configured pid_reset)\<lparr>encoder := \<lparr>unit = 0, channel = 0, count = 2147483640\<rparr>\<rparr>"
  from pid_ticks_total [OF pid_compute_incremental_in_range] obtain ds hw' motor' where
    r: "pid_ticks pid_compute_incremental [5, 12, 7] hw_configured (motor_configured pid_reset)
          = Inr (ds, hw', motor')"
    by blast
  from pid_ticks_total [OF pid_compute_incremental_in_range] obtain ds2 hw2 motor2 where
    r2: "pid_ticks pid_compute_incremental [2147483647, - 2147483648] hw_configured ?m
          = Inr (ds2, hw2, motor2)"
    by blast
  have "ds = [5, 7, - 5] \<and> sum_list ds = 7 \<and> count (encoder motor') = 7"
    using pid_ticks_deltas_telescope [OF r] by (simp add: motor_configured_def)
  moreover have "ds2 = [7, 1]"
    using pid_ticks_deltas_telescope [OF r2] by simp
  ultimately show ?thesis
    unfolding r r2 by simp
qed

section \<open>Properties of the socket manager\<close>

subsection \<open>Dispatch of a datagram\<close>

text \<open>
  A datagram whose envelope does not name the velocity command (a truncated envelope or
  an unknown discriminant) reaches no handler: the pass logs the decode failure and the
  loop goes on.
\<close>

lemma socket_rx_step_no_type:
  assumes "0 \<le> len" and "dt (pb_istream_from_buffer buf len) = (ty, s1)"
    and "ty \<noteq> Some TwistCmd_fields"
  shows "socket_rx_step dt dc cbs (len, buf) =
           (Running, [ESP_LOGE (''Decode failed: '' @ PB_GET_ERROR s1)])"
  using assms by (simp add: socket_rx_step_def)

text \<open>
  C2: the spec has no handler run for a malformed datagram. The code calls the handler
  before it looks at the decode status: for a datagram whose envelope names the velocity
  command and whose body fails to decode, the registered handler is called with the
  message as the failed decode left it, and only then is the failure logged.
\<close>

theorem socket_rx_step_handler_on_failed_decode:
  assumes "0 \<le> len"
    and "dt (pb_istream_from_buffer buf len) = (Some TwistCmd_fields, s1)"
    and "dc s1 TwistCmd_fields TwistCmd_init_zero = (False, msg, s2)"
    and "cbs eTwistCmd = Some h"
  shows "socket_rx_step dt dc cbs (len, buf) =
           (Running, [Handler_Called h msg, ESP_LOGE (''Decode failed: '' @ PB_GET_ERROR s2)])"
  using assms by (simp add: socket_rx_step_def)

text \<open>
  C2 on a three-byte datagram whose body ends early, with handler 7 registered: the
  handler is called with the zero-initialised message.
\<close>

theorem socket_rx_step_handler_on_failed_decode_witness:
  "(0::int) \<le> 3 \<and>
   names_TwistCmd (pb_istream_from_buffer [10, 8, 13] 3) =
     (Some TwistCmd_fields, \<lparr>bytes_left = [8, 13], errmsg = None\<rparr>) \<and>
   body_truncated \<lparr>bytes_left = [8, 13], errmsg = None\<rparr> TwistCmd_fields TwistCmd_init_zero =
     (False, TwistCmd_init_zero, \<lparr>bytes_left = [8, 13], errmsg = Some ''end-of-stream''\<rparr>) \<and>
   register_callback rx_callbacks_init 7 eTwistCmd eTwistCmd = Some 7 \<and>
   socket_rx_step names_TwistCmd body_truncated
     (register_callback rx_callbacks_init 7 eTwistCmd) (3, [10, 8, 13]) =
   (Running,
    [Handler_Called 7 TwistCmd_init_zero, ESP_LOGE ''Decode failed: end-of-stream''])"
  using socket_rx_step_handler_on_failed_decode
    [of 3 names_TwistCmd "[10, 8, 13]" "\<lparr>bytes_left = [8, 13], errmsg = None\<rparr>"
        body_truncated TwistCmd_init_zero
        "\<lparr>bytes_left = [8, 13], errmsg = Some ''end-of-stream''\<rparr>"
        "register_callback rx_callbacks_init 7 eTwistCmd" 7]
  by (simp add: pb_istream_from_buffer_def register_callback_def PB_GET_ERROR_def
      names_TwistCmd_def body_truncated_def)

subsection \<open>A receive failure\<close>

text \<open>
  While every receive succeeds and a handler is registered, the loop goes on: the run of
  a list of datagrams followed by more results is the run of the datagrams, then the run
  of the rest.
\<close>

lemma socket_rx_task_append:
  assumes "\<forall>r \<in> set pre. 0 \<le> fst r" and "cbs eTwistCmd = Some h"
  shows "socket_rx_task dt dc cbs (pre @ rs) =
           (fst (socket_rx_task dt dc cbs rs),
            snd (socket_rx_task dt dc cbs pre) @ snd (socket_rx_task dt dc cbs rs))"
  using assms(1)
proof (induction pre)
  case Nil
  show ?case by simp
next
  case (Cons r pre)
  obtain len buf where r: "r = (len, buf)" by (cases r)
  with Cons.prems have len: "0 \<le> len" by simp
  have "fst (socket_rx_step dt dc cbs r) = Running"
    using len assms(2) unfolding r
    by (simp add: socket_rx_step_def Let_def split: prod.splits)
  then obtain es where s: "socket_rx_step dt dc cbs r = (Running, es)"
    by (cases "socket_rx_step dt dc cbs r") simp
  from Cons.IH Cons.prems show ?case
    by (simp add: s split: prod.splits)
qed

text \<open>
  C3, as the spec states it, fails: a receive failure ends the receive task. With a
  failed receive first and a well-formed velocity command after it, the task logs the
  failure and returns, and the command reaches no handler; the same command alone is
  dispatched.
\<close>

theorem socket_rx_task_recv_failure_counterexample:
  "socket_rx_task names_TwistCmd body_decodes (register_callback rx_callbacks_init 7 eTwistCmd)
     [(- 1, []), (3, [10, 8, 13])] =
     (Returned, [ESP_LOGE ''recvfrom failed: errno %d'']) \<and>
   socket_rx_task names_TwistCmd body_decodes (register_callback rx_callbacks_init 7 eTwistCmd)
     [(3, [10, 8, 13])] =
     (Running, [Handler_Called 7 \<lparr>linear = 1, angular = 0\<rparr>])"
  by (simp add: socket_rx_step_def pb_istream_from_buffer_def register_callback_def
      names_TwistCmd_def body_decodes_def)

text \<open>
  C3 (amended): a socket receive failure is logged and ends the receive loop. After any
  number of datagrams received without failure, with a handler registered, a failed
  receive adds the log line \<open>recvfrom failed\<close> to the effects so far and the task
  function returns; whatever arrives afterwards is never read.
\<close>

theorem socket_rx_task_returns_on_recv_failure:
  assumes "len < 0" and "\<forall>r \<in> set pre. 0 \<le> fst r" and "cbs eTwistCmd = Some h"
  shows "socket_rx_task dt dc cbs (pre @ (len, buf) # rest) =
           (Returned,
            snd (socket_rx_task dt dc cbs pre) @ [ESP_LOGE ''recvfrom failed: errno %d''])"
proof -
  have "socket_rx_task dt dc cbs ((len, buf) # rest) =
          (Returned, [ESP_LOGE ''recvfrom failed: errno %d''])"
    using assms(1) by (simp add: socket_rx_step_def)
  then show ?thesis
    using socket_rx_task_append [where pre = pre and cbs = cbs and h = h and dt = dt and dc = dc
        and rs = "(len, buf) # rest"] assms(2,3)
    by simp
qed

text \<open>
  The amended C3 on a velocity command, a failed receive, and a second velocity command:
  one handler call, the log line, and the task has returned.
\<close>

theorem socket_rx_task_returns_on_recv_failure_witness:
  "(- 1 :: int) < 0 \<and> (0 :: int) \<le> fst (3, [10, 8, 13 :: byte]) \<and>
   register_callback rx_callbacks_init 7 eTwistCmd eTwistCmd = Some 7 \<and>
   socket_rx_task names_TwistCmd body_decodes (register_callback rx_callbacks_init 7 eTwistCmd)
     ([(3, [10, 8, 13])] @ (- 1, []) # [(3, [10, 8, 13])]) =
     (Returned,
      [Handler_Called 7 \<lparr>linear = 1, angular = 0\<rparr>, ESP_LOGE ''recvfrom failed: errno %d''])"
  using socket_rx_task_returns_on_recv_failure
    [of "- 1" "[(3, [10, 8, 13])]" "register_callback rx_callbacks_init 7 eTwistCmd" 7
        names_TwistCmd body_decodes "[]" "[(3, [10, 8, 13])]"]
  by (simp add: socket_rx_step_def pb_istream_from_buffer_def register_callback_def
      names_TwistCmd_def body_decodes_def)

subsection \<open>A serialization failure\<close>

text \<open>
  C6: the spec drops an envelope whose serialization fails, without transmitting it. The
  code logs the failure and goes on to \<open>sendto\<close>: the bytes the encoder wrote before it
  failed are transmitted as a datagram. The envelope is not retried.
\<close>

theorem socket_tx_step_sends_on_failed_encode:
  assumes "pb_encode tx_buffer msg = (False, n, tx_buffer')"
  shows "socket_tx_step pb_encode tx_buffer (Some msg) =
           (tx_buffer',
            [ESP_LOGE ''Failed to serialize message.'', Sendto (take n tx_buffer')])"
  using assms by (simp add: socket_tx_step_def)

text \<open>
  C6 on an envelope that does not fit the buffer, the encoder having written two bytes:
  the two bytes are sent, and the next envelope is taken from the queue.
\<close>

theorem socket_tx_step_sends_on_failed_encode_witness:
  "encode_stream_full [0, 0, 0, 0] 5 = (False, 2, [8, 1, 0, 0]) \<and>
   socket_tx_step encode_stream_full [0, 0, 0, 0] (Some 5) =
     ([8, 1, 0, 0], [ESP_LOGE ''Failed to serialize message.'', Sendto [8, 1]]) \<and>
   socket_tx_task encode_stream_full [0, 0, 0, 0] [Some 5] =
     [ESP_LOGE ''Failed to serialize message.'', Sendto [8, 1]]"
  using socket_tx_step_sends_on_failed_encode
    [of encode_stream_full "[0, 0, 0, 0]" 5 2 "[8, 1, 0, 0]"]
  by (simp add: encode_stream_full_def)

end
